theory Spec2Isabelle
  imports Complex_Main "HOL-Library.Word" "HOL-Library.Signed_Division"
begin

unbundle bit_operations_syntax

section \<open>Go values\<close>

text \<open>
  Go's \<open>int\<close> is a 64-bit two's complement integer on the platform the Dockerfile
  builds for (golang:1.23, linux): \<open>*\<close> and \<open>+\<close> wrap around, \<open>/\<close> truncates
  towards zero. A Go \<open>string\<close> is a sequence of bytes, as a HOL \<open>string\<close> is; a
  \<open>[]byte\<close> is a list of 8-bit words.

  A Go function either panics or returns; a function that returns \<open>(T, error)\<close>
  returns a pair whose second component is \<open>None\<close> for a nil error.
\<close>

type_synonym go_int = "64 word"
type_synonym byte = "8 word"

datatype panic =
    MakeSliceLenOutOfRange
  | SliceBoundsOutOfRange

datatype 'a go = Panic panic | Return 'a

definition go_quo :: "go_int \<Rightarrow> go_int \<Rightarrow> go_int" where
  \<comment> \<open>the operator \<open>/\<close> of Go on \<open>int\<close>, for a non-zero divisor\<close>
  "go_quo a b = word_of_int (sint a sdiv sint b)"

section \<open>encoding/base64: RawURLEncoding.EncodeToString\<close>

text \<open>
  The standard library's encoder with the URL alphabet and no padding. Three bytes give
  four characters; a remainder of one byte gives two characters, of two bytes three.
\<close>

definition encodeURL :: string where
  "encodeURL = ''ABCDEFGHIJKLMNOPQRSTUVWXYZabcdefghijklmnopqrstuvwxyz0123456789-_''"

definition enc :: "go_int \<Rightarrow> char" where
  \<comment> \<open>\<open>enc.encode[v & 0x3F]\<close>\<close>
  "enc v = encodeURL ! unat (v AND 0x3F)"

fun EncodeToString :: "byte list \<Rightarrow> string" where
  "EncodeToString (b0 # b1 # b2 # src) =
     (let val = push_bit 16 (ucast b0) OR push_bit 8 (ucast b1) OR ucast b2 :: go_int
      in enc (drop_bit 18 val) # enc (drop_bit 12 val) # enc (drop_bit 6 val) # enc val
         # EncodeToString src)"
| "EncodeToString [b0, b1] =
     (let val = push_bit 16 (ucast b0) OR push_bit 8 (ucast b1) :: go_int
      in [enc (drop_bit 18 val), enc (drop_bit 12 val), enc (drop_bit 6 val)])"
| "EncodeToString [b0] =
     (let val = push_bit 16 (ucast b0) :: go_int
      in [enc (drop_bit 18 val), enc (drop_bit 12 val)])"
| "EncodeToString [] = []"

section \<open>crypto/rand: the entropy source\<close>

text \<open>
  The entropy source is outside the program. Its \<open>k\<close>-th read either fails or yields
  bytes; \<open>drawn\<close> logs the sizes of the reads made so far, so the next read is number
  \<open>length (drawn r)\<close>. \<open>rand.Read\<close> is \<open>io.ReadFull\<close> on the source: a buffer of
  length 0 is filled without reading the source at all.
\<close>

datatype draw = EntropyFail | EntropyBytes "nat \<Rightarrow> byte"

record rng =
  entropy :: "nat \<Rightarrow> draw"
  drawn :: "nat list"

datatype rand_error = ErrEntropy

definition rand_Read :: "nat \<Rightarrow> rng \<Rightarrow> (byte list \<times> rand_error option) \<times> rng" where
  "rand_Read n r =
     (if n = 0 then (([], None), r)
      else case entropy r (length (drawn r)) of
             EntropyFail \<Rightarrow> ((replicate n 0, Some ErrEntropy), r\<lparr>drawn := drawn r @ [n]\<rparr>)
           | EntropyBytes f \<Rightarrow> ((map f [0..<n], None), r\<lparr>drawn := drawn r @ [n]\<rparr>))"

section \<open>internal/pkg/utils/random.go\<close>

text \<open>
  \<open>make([]byte, numBytes)\<close> panics for a negative \<open>numBytes\<close>; memory is taken
  as unbounded, so it succeeds for every other size. When the read fails the buffer is not
  used. The slice expression \<open>randomString[:length]\<close> is only reached with \<open>length\<close>
  below the string's length, so it panics exactly when \<open>length\<close> is negative.
\<close>

definition numBytes :: "go_int \<Rightarrow> go_int" where
  "numBytes len = go_quo (len * 6) 8 + 1"

definition GenerateRandomString :: "go_int \<Rightarrow> rng \<Rightarrow> (string \<times> rand_error option) go \<times> rng" where
  "GenerateRandomString len r =
     (if sint (numBytes len) < 0 then (Panic MakeSliceLenOutOfRange, r)
      else case rand_Read (unat (numBytes len)) r of
        ((b, Some err), r') \<Rightarrow> (Return ('''', Some err), r')
      | ((b, None), r') \<Rightarrow>
          (let randomString = EncodeToString b in
           if int (length randomString) > sint len
           then (if sint len < 0 then (Panic SliceBoundsOutOfRange, r')
                 else (Return (take (nat (sint len)) randomString, None), r'))
           else (Return (randomString, None), r')))"

section \<open>strings: the helpers the parser uses\<close>

definition HasPrefix :: "string \<Rightarrow> string \<Rightarrow> bool" where
  "HasPrefix s p = (take (length p) s = p)"

definition HasSuffix :: "string \<Rightarrow> string \<Rightarrow> bool" where
  "HasSuffix s p = (length p \<le> length s \<and> drop (length s - length p) s = p)"

definition Cut :: "string \<Rightarrow> char \<Rightarrow> string \<times> string" where
  \<comment> \<open>\<open>strings.Cut\<close> at a one-byte separator: before and after its first occurrence\<close>
  "Cut s sep = (takeWhile (\<lambda>c. c \<noteq> sep) s, drop 1 (dropWhile (\<lambda>c. c \<noteq> sep) s))"

fun LastIndex :: "string \<Rightarrow> char \<Rightarrow> nat option" where
  "LastIndex [] sep = None"
| "LastIndex (c # s) sep =
     (case LastIndex s sep of
        Some i \<Rightarrow> Some (Suc i)
      | None \<Rightarrow> if c = sep then Some 0 else None)"

fun Index :: "string \<Rightarrow> string \<Rightarrow> nat option" where
  "Index [] sep = (if sep = [] then Some 0 else None)"
| "Index (c # s) sep =
     (if take (length sep) (c # s) = sep then Some 0 else map_option Suc (Index s sep))"

definition toLower :: "char \<Rightarrow> char" where
  "toLower c = (if (65::nat) \<le> of_char c \<and> of_char c \<le> (90::nat)
                then char_of (of_char c + (32::nat)) else c)"

definition ToLower :: "string \<Rightarrow> string" where
  \<comment> \<open>\<open>strings.ToLower\<close> on ASCII text, which a scheme is\<close>
  "ToLower s = map toLower s"

section \<open>net/url: ParseRequestURI\<close>

text \<open>
  The parser of the standard library (Go 1.23), in request mode (\<open>viaRequest\<close> is true).
  \<open>RawPath\<close>, a hint of the path's original escaping, is left out: it plays no part in
  the parser's errors, nor in the scheme and host it returns.
\<close>

datatype url_error =
    ErrInvalidControlCharacter
  | ErrEmptyURL
  | ErrMissingProtocolScheme
  | ErrInvalidURIForRequest
  | ErrMissingBracketInHost
  | ErrInvalidPort string
  | ErrInvalidUserinfo
  | EscapeError string
  | InvalidHostError string

datatype encoding = encodePath | encodeHost | encodeZone | encodeUserPassword

record URL =
  Scheme :: string
  Opaque :: string
  User :: "(string \<times> string option) option"
  Host :: string
  Path :: string
  OmitHost :: bool
  ForceQuery :: bool
  RawQuery :: string

definition emptyURL :: URL where
  "emptyURL = \<lparr>Scheme = [], Opaque = [], User = None, Host = [], Path = [],
     OmitHost = False, ForceQuery = False, RawQuery = []\<rparr>"

definition is_letter :: "char \<Rightarrow> bool" where
  "is_letter c = ((97::nat) \<le> of_char c \<and> of_char c \<le> (122::nat)
                \<or> (65::nat) \<le> of_char c \<and> of_char c \<le> (90::nat))"

definition is_digit :: "char \<Rightarrow> bool" where
  "is_digit c = ((48::nat) \<le> of_char c \<and> of_char c \<le> (57::nat))"

definition stringContainsCTLByte :: "string \<Rightarrow> bool" where
  "stringContainsCTLByte s = list_ex (\<lambda>b. of_char b < (32::nat) \<or> of_char b = (127::nat)) s"

fun getScheme_from :: "string \<Rightarrow> nat \<Rightarrow> string \<Rightarrow> url_error + string \<times> string" where
  "getScheme_from rawURL i [] = Inr ([], rawURL)"
| "getScheme_from rawURL i (c # cs) =
     (if is_letter c then getScheme_from rawURL (Suc i) cs
      else if is_digit c \<or> c = CHR ''+'' \<or> c = CHR ''-'' \<or> c = CHR ''.''
      then (if i = 0 then Inr ([], rawURL) else getScheme_from rawURL (Suc i) cs)
      else if c = CHR '':''
      then (if i = 0 then Inl ErrMissingProtocolScheme
            else Inr (take i rawURL, drop (Suc i) rawURL))
      else Inr ([], rawURL))"

definition getScheme :: "string \<Rightarrow> url_error + string \<times> string" where
  "getScheme rawURL = getScheme_from rawURL 0 rawURL"

definition ishex :: "char \<Rightarrow> bool" where
  "ishex c = (is_digit c
            \<or> (97::nat) \<le> of_char c \<and> of_char c \<le> (102::nat)
            \<or> (65::nat) \<le> of_char c \<and> of_char c \<le> (70::nat))"

definition unhex :: "char \<Rightarrow> nat" where
  "unhex c = (if is_digit c then of_char c - 48
              else if (97::nat) \<le> of_char c \<and> of_char c \<le> (102::nat) then of_char c - 97 + 10
              else if (65::nat) \<le> of_char c \<and> of_char c \<le> (70::nat) then of_char c - 65 + 10
              else 0)"

definition shouldEscapeHost :: "char \<Rightarrow> bool" where
  \<comment> \<open>\<open>shouldEscape(c, encodeHost)\<close>\<close>
  "shouldEscapeHost c =
     (\<not> (is_letter c \<or> is_digit c)
      \<and> c \<notin> set ''!$&()*+,;=:[]<>'' \<and> c \<noteq> CHR 0x27 \<and> c \<noteq> CHR 0x22
      \<and> c \<notin> set ''-_.~'')"

text \<open>
  \<open>unescape\<close> first checks the string (every \<open>%\<close> is followed by two hexadecimal
  digits; a host admits fewer bytes and fewer escapes), then decodes it. The decoding
  loop only runs on a string that passed the check.
\<close>

fun unescape_check :: "encoding \<Rightarrow> string \<Rightarrow> url_error option" where
  "unescape_check mode [] = None"
| "unescape_check mode (c # s) =
     (if c = CHR ''%'' then
        (case s of
           h1 # h2 # s' \<Rightarrow>
             if \<not> ishex h1 \<or> \<not> ishex h2 then Some (EscapeError [c, h1, h2])
             else if mode = encodeHost \<and> unhex h1 < 8 \<and> [c, h1, h2] \<noteq> ''%25''
             then Some (EscapeError [c, h1, h2])
             else if mode = encodeZone \<and> [c, h1, h2] \<noteq> ''%25''
                     \<and> char_of (unhex h1 * 16 + unhex h2) \<noteq> CHR '' ''
                     \<and> shouldEscapeHost (char_of (unhex h1 * 16 + unhex h2))
             then Some (EscapeError [c, h1, h2])
             else unescape_check mode s'
         | _ \<Rightarrow> Some (EscapeError (c # s)))
      else if c = CHR ''+'' then unescape_check mode s
      else if (mode = encodeHost \<or> mode = encodeZone) \<and> of_char c < (128::nat)
              \<and> shouldEscapeHost c
      then Some (InvalidHostError [c])
      else unescape_check mode s)"

fun unescape_decode :: "string \<Rightarrow> string" where
  "unescape_decode [] = []"
| "unescape_decode (c # s) =
     (if c = CHR ''%'' then
        (case s of
           h1 # h2 # s' \<Rightarrow> char_of (unhex h1 * 16 + unhex h2) # unescape_decode s'
         | _ \<Rightarrow> c # s)
      else c # unescape_decode s)"

definition unescape :: "string \<Rightarrow> encoding \<Rightarrow> url_error + string" where
  "unescape s mode =
     (case unescape_check mode s of Some err \<Rightarrow> Inl err | None \<Rightarrow> Inr (unescape_decode s))"

definition validOptionalPort :: "string \<Rightarrow> bool" where
  "validOptionalPort port =
     (case port of
        [] \<Rightarrow> True
      | c # ds \<Rightarrow> c = CHR '':'' \<and> list_all is_digit ds)"

definition validUserinfo :: "string \<Rightarrow> bool" where
  "validUserinfo s =
     list_all (\<lambda>r. is_letter r \<or> is_digit r \<or> r \<in> set ''-._:~!$&()*+,;=%@'' \<or> r = CHR 0x27) s"

definition parseHost :: "string \<Rightarrow> url_error + string" where
  "parseHost host =
     (if HasPrefix host ''['' then
        (case LastIndex host CHR '']'' of
           None \<Rightarrow> Inl ErrMissingBracketInHost
         | Some i \<Rightarrow>
             if \<not> validOptionalPort (drop (Suc i) host)
             then Inl (ErrInvalidPort (drop (Suc i) host))
             else (case Index (take i host) ''%25'' of
                     Some zone \<Rightarrow>
                       (case unescape (take zone host) encodeHost of
                          Inl err \<Rightarrow> Inl err
                        | Inr host1 \<Rightarrow>
                       (case unescape (drop zone (take i host)) encodeZone of
                          Inl err \<Rightarrow> Inl err
                        | Inr host2 \<Rightarrow>
                       (case unescape (drop i host) encodeHost of
                          Inl err \<Rightarrow> Inl err
                        | Inr host3 \<Rightarrow> Inr (host1 @ host2 @ host3))))
                   | None \<Rightarrow> unescape host encodeHost))
      else (case LastIndex host CHR '':'' of
              Some i \<Rightarrow>
                if \<not> validOptionalPort (drop i host) then Inl (ErrInvalidPort (drop i host))
                else unescape host encodeHost
            | None \<Rightarrow> unescape host encodeHost))"

definition parseAuthority :: "string \<Rightarrow> url_error + (string \<times> string option) option \<times> string" where
  "parseAuthority authority =
     (case LastIndex authority CHR ''@'' of
        None \<Rightarrow>
          (case parseHost authority of
             Inl err \<Rightarrow> Inl err
           | Inr host \<Rightarrow> Inr (None, host))
      | Some i \<Rightarrow>
          (case parseHost (drop (Suc i) authority) of
             Inl err \<Rightarrow> Inl err
           | Inr host \<Rightarrow>
               (let userinfo = take i authority in
                if \<not> validUserinfo userinfo then Inl ErrInvalidUserinfo
                else if CHR '':'' \<notin> set userinfo then
                  (case unescape userinfo encodeUserPassword of
                     Inl err \<Rightarrow> Inl err
                   | Inr username \<Rightarrow> Inr (Some (username, None), host))
                else
                  (case unescape (fst (Cut userinfo CHR '':'')) encodeUserPassword of
                     Inl err \<Rightarrow> Inl err
                   | Inr username \<Rightarrow>
                  (case unescape (snd (Cut userinfo CHR '':'')) encodeUserPassword of
                     Inl err \<Rightarrow> Inl err
                   | Inr password \<Rightarrow> Inr (Some (username, Some password), host))))))"

definition setPath :: "URL \<Rightarrow> string \<Rightarrow> url_error + URL" where
  "setPath u p =
     (case unescape p encodePath of
        Inl err \<Rightarrow> Inl err
      | Inr path \<Rightarrow> Inr (u\<lparr>Path := path\<rparr>))"

definition ParseRequestURI :: "string \<Rightarrow> url_error + URL" where
  "ParseRequestURI rawURL =
     (if stringContainsCTLByte rawURL then Inl ErrInvalidControlCharacter
      else if rawURL = [] then Inl ErrEmptyURL
      else if rawURL = ''*'' then Inr (emptyURL\<lparr>Path := ''*''\<rparr>)
      else case getScheme rawURL of
        Inl err \<Rightarrow> Inl err
      | Inr (scheme, rest0) \<Rightarrow>
         (let u0 = emptyURL\<lparr>Scheme := ToLower scheme\<rparr>;
              forceQuery = (HasSuffix rest0 ''?'' \<and> count_list rest0 CHR ''?'' = 1);
              rest = (if forceQuery then butlast rest0 else fst (Cut rest0 CHR ''?''));
              u = (if forceQuery then u0\<lparr>ForceQuery := True\<rparr>
                   else u0\<lparr>RawQuery := snd (Cut rest0 CHR ''?'')\<rparr>)
          in if \<not> HasPrefix rest ''/'' then
               (if Scheme u \<noteq> [] then Inr (u\<lparr>Opaque := rest\<rparr>)
                else Inl ErrInvalidURIForRequest)
             else if Scheme u \<noteq> [] \<and> HasPrefix rest ''//'' then
               (let authority = takeWhile (\<lambda>c. c \<noteq> CHR ''/'') (drop 2 rest);
                    rest' = dropWhile (\<lambda>c. c \<noteq> CHR ''/'') (drop 2 rest)
                in case parseAuthority authority of
                     Inl err \<Rightarrow> Inl err
                   | Inr (user, host) \<Rightarrow> setPath (u\<lparr>User := user, Host := host\<rparr>) rest')
             else if Scheme u \<noteq> [] then setPath (u\<lparr>OmitHost := True\<rparr>) rest
             else setPath u rest))"

section \<open>internal/services/shortener\_service.go: ValidateURL\<close>

definition ValidateURL :: "string \<Rightarrow> bool" where
  "ValidateURL inputURL =
     (case ParseRequestURI inputURL of
        Inl err \<Rightarrow> False
      | Inr u \<Rightarrow> (Scheme u = ''http'' \<or> Scheme u = ''https'') \<and> Host u \<noteq> [])"

section \<open>internal/repositories/shortener\_repo.go: the repository interface\<close>

text \<open>
  The service is written against the interface \<open>ShortenerRepository\<close>, so the model
  of the service takes an implementation as a record of functions on a store of any type
  \<open>'s\<close>. \<open>ErrNotFound\<close> is the sentinel of the package; the other errors are what a
  backend reports. \<open>errors.Is (err, ErrNotFound)\<close> is equality with the sentinel.
\<close>

datatype repo_error =
    ErrNotFound
  | ErrUniqueConstraint
  | ErrDatabaseFull
  | ErrBackend string

record 's ShortenerRepository =
  repo_SaveMapping :: "string \<Rightarrow> string \<Rightarrow> 's \<Rightarrow> (int \<times> repo_error option) \<times> 's"
  repo_FindByShortCode :: "string \<Rightarrow> 's \<Rightarrow> (string \<times> repo_error option) \<times> 's"
  repo_FindByLongURL :: "string \<Rightarrow> 's \<Rightarrow> (string \<times> repo_error option) \<times> 's"
  repo_UpdateLongURL :: "string \<Rightarrow> string \<Rightarrow> 's \<Rightarrow> repo_error option \<times> 's"
  repo_DeleteMapping :: "string \<Rightarrow> 's \<Rightarrow> repo_error option \<times> 's"

section \<open>internal/services/shortener\_service.go: the service\<close>

text \<open>
  The state a request runs in: the store behind the repository, the log of the calls made
  to the repository, and the entropy source. The messages written with \<open>log.Printf\<close>
  are not modelled.
\<close>

datatype repo_call =
    CallSaveMapping string string
  | CallFindByShortCode string
  | CallFindByLongURL string
  | CallUpdateLongURL string string
  | CallDeleteMapping string

record 's world =
  store :: 's
  calls :: "repo_call list"
  rand_src :: rng

definition call_SaveMapping ::
  "'s ShortenerRepository \<Rightarrow> string \<Rightarrow> string \<Rightarrow> 's world \<Rightarrow> (int \<times> repo_error option) \<times> 's world" where
  "call_SaveMapping repo shortCode longURL w =
     (case repo_SaveMapping repo shortCode longURL (store w) of
        (res, s') \<Rightarrow> (res, w\<lparr>store := s', calls := calls w @ [CallSaveMapping shortCode longURL]\<rparr>))"

definition call_FindByShortCode ::
  "'s ShortenerRepository \<Rightarrow> string \<Rightarrow> 's world \<Rightarrow> (string \<times> repo_error option) \<times> 's world" where
  "call_FindByShortCode repo shortCode w =
     (case repo_FindByShortCode repo shortCode (store w) of
        (res, s') \<Rightarrow> (res, w\<lparr>store := s', calls := calls w @ [CallFindByShortCode shortCode]\<rparr>))"

definition call_FindByLongURL ::
  "'s ShortenerRepository \<Rightarrow> string \<Rightarrow> 's world \<Rightarrow> (string \<times> repo_error option) \<times> 's world" where
  "call_FindByLongURL repo longURL w =
     (case repo_FindByLongURL repo longURL (store w) of
        (res, s') \<Rightarrow> (res, w\<lparr>store := s', calls := calls w @ [CallFindByLongURL longURL]\<rparr>))"

definition call_UpdateLongURL ::
  "'s ShortenerRepository \<Rightarrow> string \<Rightarrow> string \<Rightarrow> 's world \<Rightarrow> repo_error option \<times> 's world" where
  "call_UpdateLongURL repo shortCode newLongURL w =
     (case repo_UpdateLongURL repo shortCode newLongURL (store w) of
        (res, s') \<Rightarrow>
          (res, w\<lparr>store := s', calls := calls w @ [CallUpdateLongURL shortCode newLongURL]\<rparr>))"

definition call_DeleteMapping ::
  "'s ShortenerRepository \<Rightarrow> string \<Rightarrow> 's world \<Rightarrow> repo_error option \<times> 's world" where
  "call_DeleteMapping repo shortCode w =
     (case repo_DeleteMapping repo shortCode (store w) of
        (res, s') \<Rightarrow> (res, w\<lparr>store := s', calls := calls w @ [CallDeleteMapping shortCode]\<rparr>))"

definition shortCodeLength :: go_int where
  "shortCodeLength = 7"

definition maxGenerationRetries :: nat where
  "maxGenerationRetries = 5"

text \<open>
  The errors of the service: a message of its own, or a message wrapping the error of the
  repository or of the generator (\<open>%w\<close>). \<open>UpdateLongURL\<close> and \<open>DeleteMapping\<close> hand
  \<open>ErrNotFound\<close> on as it is.
\<close>

datatype svc_error =
    ErrInvalidURL
  | ErrCheckExisting repo_error
  | ErrGenerate rand_error
  | ErrSaveMapping repo_error
  | ErrCheckUniqueness repo_error
  | ErrRetriesExhausted
  | ErrInvalidNewURL
  | ErrRepo repo_error
  | ErrUpdateMapping repo_error
  | ErrDeleteMapping repo_error

function CreateShortURL_loop ::
  "'s ShortenerRepository \<Rightarrow> string \<Rightarrow> nat \<Rightarrow> 's world \<Rightarrow> (string \<times> svc_error option) go \<times> 's world" where
  "CreateShortURL_loop repo longURL i w =
     (if i < maxGenerationRetries then
        (case GenerateRandomString shortCodeLength (rand_src w) of
           (Panic p, r') \<Rightarrow> (Panic p, w\<lparr>rand_src := r'\<rparr>)
         | (Return (code, Some err), r') \<Rightarrow>
             (Return ([], Some (ErrGenerate err)), w\<lparr>rand_src := r'\<rparr>)
         | (Return (code, None), r') \<Rightarrow>
             (case call_FindByShortCode repo code (w\<lparr>rand_src := r'\<rparr>) of
                ((found, Some repoErr), w1) \<Rightarrow>
                  if repoErr = ErrNotFound then
                    (case call_SaveMapping repo code longURL w1 of
                       ((n, Some saveErr), w2) \<Rightarrow> (Return ([], Some (ErrSaveMapping saveErr)), w2)
                     | ((n, None), w2) \<Rightarrow> (Return (code, None), w2))
                  else (Return ([], Some (ErrCheckUniqueness repoErr)), w1)
              | ((found, None), w1) \<Rightarrow> CreateShortURL_loop repo longURL (Suc i) w1))
      else (Return ([], Some ErrRetriesExhausted), w))"
  by pat_completeness auto
termination
  by (relation "measure (\<lambda>(repo, longURL, i, w). maxGenerationRetries - i)") auto

declare CreateShortURL_loop.simps [simp del]

definition CreateShortURL ::
  "'s ShortenerRepository \<Rightarrow> string \<Rightarrow> 's world \<Rightarrow> (string \<times> svc_error option) go \<times> 's world" where
  "CreateShortURL repo longURL w =
     (if \<not> ValidateURL longURL then (Return ([], Some ErrInvalidURL), w)
      else case call_FindByLongURL repo longURL w of
        ((existingCode, err), w0) \<Rightarrow>
          (case (if err = Some ErrNotFound then None else err) of
             Some fatal \<Rightarrow> (Return ([], Some (ErrCheckExisting fatal)), w0)
           | None \<Rightarrow>
               if existingCode \<noteq> [] then (Return (existingCode, None), w0)
               else CreateShortURL_loop repo longURL 0 w0))"

definition svc_UpdateLongURL ::
  "'s ShortenerRepository \<Rightarrow> string \<Rightarrow> string \<Rightarrow> 's world \<Rightarrow> svc_error option \<times> 's world" where
  "svc_UpdateLongURL repo shortCode newLongURL w =
     (if \<not> ValidateURL newLongURL then (Some ErrInvalidNewURL, w)
      else case call_UpdateLongURL repo shortCode newLongURL w of
        (Some err, w') \<Rightarrow>
          if err = ErrNotFound then (Some (ErrRepo err), w')
          else (Some (ErrUpdateMapping err), w')
      | (None, w') \<Rightarrow> (None, w'))"

definition svc_DeleteMapping ::
  "'s ShortenerRepository \<Rightarrow> string \<Rightarrow> 's world \<Rightarrow> svc_error option \<times> 's world" where
  "svc_DeleteMapping repo shortCode w =
     (case call_DeleteMapping repo shortCode w of
        (Some err, w') \<Rightarrow>
          if err = ErrNotFound then (Some (ErrRepo err), w')
          else (Some (ErrDeleteMapping err), w')
      | (None, w') \<Rightarrow> (None, w'))"

section \<open>internal/repositories/shortener\_repo.go: the SQLite repository\<close>

text \<open>
  The table \<open>urls\<close> of \<open>InitSchema\<close>, as the list of its rows in the order of their
  \<open>id\<close>. An insert appends a row; \<open>short_code\<close> is declared \<open>UNIQUE\<close>, so an insert
  of a code the table holds fails. \<open>id\<close> is \<open>AUTOINCREMENT\<close>: the new id is one more
  than the largest ever given (\<open>sqlite_sequence\<close>) and than every id of the table, and the
  insert fails once that is beyond the 64-bit range. \<open>now\<close> is what \<open>time.Now()\<close>
  reads. A query with \<open>QueryRow\<close> yields the first matching row. The database itself
  does not fail otherwise (no input/output errors).
\<close>

record urlrow =
  row_id :: int
  short_code :: string
  long_url :: string
  created_at :: nat

record db =
  urls :: "urlrow list"
  sqlite_sequence :: int
  now :: nat

definition next_rowid :: "db \<Rightarrow> int" where
  "next_rowid d = fold max (map row_id (urls d)) (sqlite_sequence d) + 1"

definition SQLite_SaveMapping :: "string \<Rightarrow> string \<Rightarrow> db \<Rightarrow> (int \<times> repo_error option) \<times> db" where
  "SQLite_SaveMapping shortCode longURL d =
     (if next_rowid d > 9223372036854775807 then ((0, Some ErrDatabaseFull), d)
      else if shortCode \<in> set (map short_code (urls d)) then ((0, Some ErrUniqueConstraint), d)
      else ((next_rowid d, None),
            d\<lparr>urls := urls d @ [\<lparr>row_id = next_rowid d, short_code = shortCode,
                                  long_url = longURL, created_at = now d\<rparr>],
              sqlite_sequence := next_rowid d\<rparr>))"

definition SQLite_FindByShortCode :: "string \<Rightarrow> db \<Rightarrow> (string \<times> repo_error option) \<times> db" where
  "SQLite_FindByShortCode shortCode d =
     (case find (\<lambda>r. short_code r = shortCode) (urls d) of
        None \<Rightarrow> (([], Some ErrNotFound), d)
      | Some r \<Rightarrow> ((long_url r, None), d))"

definition SQLite_FindByLongURL :: "string \<Rightarrow> db \<Rightarrow> (string \<times> repo_error option) \<times> db" where
  "SQLite_FindByLongURL longURL d =
     (case find (\<lambda>r. long_url r = longURL) (urls d) of
        None \<Rightarrow> (([], None), d)
      | Some r \<Rightarrow> ((short_code r, None), d))"

definition SQLite_UpdateLongURL :: "string \<Rightarrow> string \<Rightarrow> db \<Rightarrow> repo_error option \<times> db" where
  "SQLite_UpdateLongURL shortCode newLongURL d =
     (let rowsAffected = length (filter (\<lambda>r. short_code r = shortCode) (urls d)) in
      if rowsAffected = 0 then (Some ErrNotFound, d)
      else (None, d\<lparr>urls := map (\<lambda>r. if short_code r = shortCode
                                       then r\<lparr>long_url := newLongURL\<rparr> else r) (urls d)\<rparr>))"

definition SQLite_DeleteMapping :: "string \<Rightarrow> db \<Rightarrow> repo_error option \<times> db" where
  "SQLite_DeleteMapping shortCode d =
     (let rowsAffected = length (filter (\<lambda>r. short_code r = shortCode) (urls d)) in
      if rowsAffected = 0 then (Some ErrNotFound, d)
      else (None, d\<lparr>urls := filter (\<lambda>r. short_code r \<noteq> shortCode) (urls d)\<rparr>))"

definition SQLiteShortenerRepo :: "db ShortenerRepository" where
  "SQLiteShortenerRepo =
     \<lparr>repo_SaveMapping = SQLite_SaveMapping,
      repo_FindByShortCode = SQLite_FindByShortCode,
      repo_FindByLongURL = SQLite_FindByLongURL,
      repo_UpdateLongURL = SQLite_UpdateLongURL,
      repo_DeleteMapping = SQLite_DeleteMapping\<rparr>"

text \<open>The constraint \<open>UNIQUE\<close> on \<open>short_code\<close>, as a property of a table.\<close>

definition unique_codes :: "db \<Rightarrow> bool" where
  "unique_codes d = distinct (map short_code (urls d))"

definition mappings_for :: "string \<Rightarrow> db \<Rightarrow> nat" where
  \<comment> \<open>the number of rows whose \<open>long_url\<close> is the given one\<close>
  "mappings_for longURL d = length (filter (\<lambda>r. long_url r = longURL) (urls d))"

section \<open>The byte count of the specification, and concrete inputs\<close>


text \<open>An entropy source whose every byte is zero, and one whose \<open>k\<close>-th read yields bytes \<open>k\<close>.\<close>

definition zero_rng :: rng where
  "zero_rng = \<lparr>entropy = (\<lambda>k. EntropyBytes (\<lambda>i. 0)), drawn = []\<rparr>"

definition counting_rng :: rng where
  "counting_rng = \<lparr>entropy = (\<lambda>k. EntropyBytes (\<lambda>i. of_nat k)), drawn = []\<rparr>"

text \<open>
  The short code the service makes of the bytes of one successful read, and the states a
  request passes through: after a read of six bytes, after a probe for a code, after the
  reverse lookup. \<open>new_row\<close> is the row an insert appends.
\<close>

definition code_of :: "(nat \<Rightarrow> byte) \<Rightarrow> string" where
  "code_of f = take 7 (EncodeToString (map f [0..<6]))"

definition drew :: "'s world \<Rightarrow> 's world" where
  "drew w = w\<lparr>rand_src := (rand_src w)\<lparr>drawn := drawn (rand_src w) @ [6]\<rparr>\<rparr>"

definition probed :: "string \<Rightarrow> 's world \<Rightarrow> 's world" where
  "probed c w = (drew w)\<lparr>calls := calls w @ [CallFindByShortCode c]\<rparr>"

definition looked_up :: "string \<Rightarrow> 's world \<Rightarrow> 's world" where
  "looked_up u w = w\<lparr>calls := calls w @ [CallFindByLongURL u]\<rparr>"

definition new_row :: "db \<Rightarrow> string \<Rightarrow> string \<Rightarrow> urlrow" where
  "new_row d shortCode longURL =
     \<lparr>row_id = next_rowid d, short_code = shortCode, long_url = longURL, created_at = now d\<rparr>"

text \<open>An empty database, and a request state on it whose entropy source is \<open>counting_rng\<close>.\<close>

definition empty_db :: db where
  "empty_db = \<lparr>urls = [], sqlite_sequence = 0, now = 0\<rparr>"

definition fresh_world :: "db world" where
  "fresh_world = \<lparr>store = empty_db, calls = [], rand_src = counting_rng\<rparr>"

text \<open>
  States of the service on the SQLite repository, reached through its own operations:
  after one creation, and after two creations and an update that points the second code at
  the first URL.
\<close>

definition one_row_world :: "db world" where
  "one_row_world = snd (CreateShortURL SQLiteShortenerRepo ''http://a'' fresh_world)"

definition two_codes_world :: "db world" where
  "two_codes_world =
     snd (svc_UpdateLongURL SQLiteShortenerRepo ''AQEBAQE'' ''http://a''
       (snd (CreateShortURL SQLiteShortenerRepo ''http://b''
         (snd (CreateShortURL SQLiteShortenerRepo ''http://a'' fresh_world)))))"

text \<open>
  For the claims on retries. \<open>is_save\<close> tells the calls to \<open>SaveMapping\<close> in the log.
  \<open>raced_repo\<close> is the SQLite repository as a request sees it when another request
  inserts the same code between its probe and its insert. \<open>candidate r k\<close> is the code
  the \<open>k\<close>-th coming read of the entropy source gives. In \<open>stuck_world\<close> the table
  holds the only code the entropy source can give.
\<close>

definition is_save :: "repo_call \<Rightarrow> bool" where
  "is_save c = (case c of CallSaveMapping shortCode longURL \<Rightarrow> True | _ \<Rightarrow> False)"

definition raced_repo :: "db ShortenerRepository" where
  "raced_repo = SQLiteShortenerRepo
     \<lparr>repo_SaveMapping :=
        (\<lambda>shortCode longURL d.
           SQLite_SaveMapping shortCode longURL
             (snd (SQLite_SaveMapping shortCode ''http://other'' d)))\<rparr>"

definition candidate :: "rng \<Rightarrow> nat \<Rightarrow> string" where
  "candidate r k =
     (case entropy r (length (drawn r) + k) of
        EntropyBytes f \<Rightarrow> code_of f
      | EntropyFail \<Rightarrow> [])"

definition stuck_world :: "db world" where
  "stuck_world = \<lparr>store = store one_row_world, calls = [], rand_src = zero_rng\<rparr>"

section \<open>The generator\<close>

subsection \<open>Positive lengths\<close>

lemma length_EncodeToString: "length (EncodeToString bs) = (length bs * 4 + 2) div 3"
  by (induction bs rule: EncodeToString.induct) (simp_all add: Let_def)

lemma enc_in_alphabet: "enc v \<in> set encodeURL"
proof -
  have "v AND 0x3F \<le> 0x3F" by (rule word_and_le1)
  then have "unat (v AND 0x3F) \<le> unat (0x3F :: go_int)" by (simp only: word_le_nat_alt)
  then have "unat (v AND 0x3F) < length encodeURL" by (simp add: encodeURL_def)
  then show ?thesis unfolding enc_def by (rule nth_mem)
qed

lemma set_EncodeToString: "set (EncodeToString bs) \<subseteq> set encodeURL"
  by (induction bs rule: EncodeToString.induct) (simp_all add: Let_def enc_in_alphabet)












subsection \<open>Lengths that are not positive\<close>









section \<open>The service\<close>

subsection \<open>The retry loop\<close>

lemma numBytes_shortCodeLength: "numBytes shortCodeLength = 6"
  by (simp add: shortCodeLength_def numBytes_def go_quo_def signed_divide_int_def)

lemma length_code_of: "length (code_of f) = 7"
  by (simp add: code_of_def length_EncodeToString)

lemma set_code_of: "set (code_of f) \<subseteq> set encodeURL"
  unfolding code_of_def using set_EncodeToString set_take_subset by fastforce

lemma GenerateRandomString_shortCodeLength:
  "GenerateRandomString shortCodeLength r =
     (case entropy r (length (drawn r)) of
        EntropyFail \<Rightarrow> (Return ([], Some ErrEntropy), r\<lparr>drawn := drawn r @ [6]\<rparr>)
      | EntropyBytes f \<Rightarrow> (Return (code_of f, None), r\<lparr>drawn := drawn r @ [6]\<rparr>))"
proof -
  have "sint shortCodeLength = 7" by (simp add: shortCodeLength_def)
  moreover have "length (EncodeToString (map f [0..<6])) = 8" for f
    by (simp add: length_EncodeToString)
  ultimately show ?thesis
    by (simp add: GenerateRandomString_def numBytes_shortCodeLength rand_Read_def Let_def
        code_of_def split: draw.split)
qed

lemma loop_unfold:
  "CreateShortURL_loop repo longURL i w =
     (if i < maxGenerationRetries then
        (case entropy (rand_src w) (length (drawn (rand_src w))) of
           EntropyFail \<Rightarrow>
             (Return ([], Some (ErrGenerate ErrEntropy)),
              w\<lparr>rand_src := (rand_src w)\<lparr>drawn := drawn (rand_src w) @ [6]\<rparr>\<rparr>)
         | EntropyBytes f \<Rightarrow>
             (case call_FindByShortCode repo (code_of f)
                     (w\<lparr>rand_src := (rand_src w)\<lparr>drawn := drawn (rand_src w) @ [6]\<rparr>\<rparr>) of
                ((found, Some repoErr), w1) \<Rightarrow>
                  if repoErr = ErrNotFound then
                    (case call_SaveMapping repo (code_of f) longURL w1 of
                       ((n, Some saveErr), w2) \<Rightarrow> (Return ([], Some (ErrSaveMapping saveErr)), w2)
                     | ((n, None), w2) \<Rightarrow> (Return (code_of f, None), w2))
                  else (Return ([], Some (ErrCheckUniqueness repoErr)), w1)
              | ((found, None), w1) \<Rightarrow> CreateShortURL_loop repo longURL (Suc i) w1))
      else (Return ([], Some ErrRetriesExhausted), w))"
  by (subst CreateShortURL_loop.simps)
     (simp add: GenerateRandomString_shortCodeLength split: draw.split)

lemma loop_code:
  "CreateShortURL_loop repo longURL i w = (Return (code, None), w')
   \<Longrightarrow> length code = 7 \<and> set code \<subseteq> set encodeURL"
proof (induction "maxGenerationRetries - i" arbitrary: i w)
  case 0
  then show ?case by (simp add: loop_unfold [of repo longURL i w])
next
  case (Suc k)
  then have lt: "i < maxGenerationRetries" by simp
  have k: "k = maxGenerationRetries - Suc i" using Suc.hyps(2) by simp
  show ?case
    using Suc.prems Suc.hyps(1) [OF k] lt
    by (subst (asm) loop_unfold)
       (auto simp: length_code_of dest: subsetD [OF set_code_of] split: draw.splits prod.splits option.splits if_splits)
qed

subsection \<open>The service on the SQLite repository\<close>

lemma find_append:
  "find P (xs @ ys) = (case find P xs of None \<Rightarrow> find P ys | Some x \<Rightarrow> Some x)"
  by (induction xs) simp_all

lemma find_in_set: "find P xs = Some x \<Longrightarrow> x \<in> set xs \<and> P x"
  by (induction xs) (auto split: if_splits)

lemma find_None_set: "find P xs = None \<longleftrightarrow> (\<forall>x \<in> set xs. \<not> P x)"
  by (induction xs) auto

lemma find_code_None: "find (\<lambda>r. short_code r = c) rs = None \<longleftrightarrow> c \<notin> set (map short_code rs)"
  by (auto simp: find_None_set)

lemma sqlite_call_FindByShortCode:
  "call_FindByShortCode SQLiteShortenerRepo c w =
     ((case find (\<lambda>r. short_code r = c) (urls (store w)) of
         None \<Rightarrow> ([], Some ErrNotFound)
       | Some r \<Rightarrow> (long_url r, None)),
      w\<lparr>calls := calls w @ [CallFindByShortCode c]\<rparr>)"
  by (simp add: call_FindByShortCode_def SQLiteShortenerRepo_def SQLite_FindByShortCode_def
      split: option.split)

lemma sqlite_call_FindByLongURL:
  "call_FindByLongURL SQLiteShortenerRepo u w =
     ((case find (\<lambda>r. long_url r = u) (urls (store w)) of
         None \<Rightarrow> ([], None)
       | Some r \<Rightarrow> (short_code r, None)),
      w\<lparr>calls := calls w @ [CallFindByLongURL u]\<rparr>)"
  by (simp add: call_FindByLongURL_def SQLiteShortenerRepo_def SQLite_FindByLongURL_def
      split: option.split)

lemma sqlite_call_SaveMapping:
  "call_SaveMapping SQLiteShortenerRepo c u w =
     (if next_rowid (store w) > 9223372036854775807
      then ((0, Some ErrDatabaseFull), w\<lparr>calls := calls w @ [CallSaveMapping c u]\<rparr>)
      else if c \<in> set (map short_code (urls (store w)))
      then ((0, Some ErrUniqueConstraint), w\<lparr>calls := calls w @ [CallSaveMapping c u]\<rparr>)
      else ((next_rowid (store w), None),
            w\<lparr>store := (store w)\<lparr>urls := urls (store w) @ [new_row (store w) c u],
                                   sqlite_sequence := next_rowid (store w)\<rparr>,
              calls := calls w @ [CallSaveMapping c u]\<rparr>))"
  by (simp add: call_SaveMapping_def SQLiteShortenerRepo_def SQLite_SaveMapping_def new_row_def)

lemma store_probed [simp]: "store (probed c w) = store w"
  by (simp add: probed_def drew_def)

lemma sqlite_probe:
  "call_FindByShortCode SQLiteShortenerRepo c (drew w) =
     (if c \<in> set (map short_code (urls (store w)))
      then ((long_url (the (find (\<lambda>r. short_code r = c) (urls (store w)))), None), probed c w)
      else (([], Some ErrNotFound), probed c w))"
proof (cases "find (\<lambda>r. short_code r = c) (urls (store w))")
  case None
  then have "c \<notin> set (map short_code (urls (store w)))" by (simp add: find_code_None del: set_map)
  then show ?thesis using None
    by (simp add: sqlite_call_FindByShortCode drew_def probed_def)
next
  case (Some r)
  then have "c \<in> set (map short_code (urls (store w)))"
    using find_code_None [of c "urls (store w)"] by simp
  then show ?thesis using Some
    by (simp add: sqlite_call_FindByShortCode drew_def probed_def)
qed

lemma sqlite_loop_unfold:
  "CreateShortURL_loop SQLiteShortenerRepo U i w =
     (if i < maxGenerationRetries then
        (case entropy (rand_src w) (length (drawn (rand_src w))) of
           EntropyFail \<Rightarrow> (Return ([], Some (ErrGenerate ErrEntropy)), drew w)
         | EntropyBytes f \<Rightarrow>
             if code_of f \<in> set (map short_code (urls (store w)))
             then CreateShortURL_loop SQLiteShortenerRepo U (Suc i) (probed (code_of f) w)
             else (case call_SaveMapping SQLiteShortenerRepo (code_of f) U (probed (code_of f) w) of
                     ((n, Some saveErr), w2) \<Rightarrow> (Return ([], Some (ErrSaveMapping saveErr)), w2)
                   | ((n, None), w2) \<Rightarrow> (Return (code_of f, None), w2)))
      else (Return ([], Some ErrRetriesExhausted), w))"
  by (subst loop_unfold)
     (simp add: sqlite_probe drew_def [symmetric] del: set_map split: draw.split)

lemma sqlite_loop:
  "CreateShortURL_loop SQLiteShortenerRepo U i w = (res, w') \<Longrightarrow>
     (\<exists>code. res = Return (code, None) \<and> length code = 7
        \<and> code \<notin> set (map short_code (urls (store w)))
        \<and> urls (store w') = urls (store w) @ [new_row (store w) code U])
     \<or> ((\<forall>code. res \<noteq> Return (code, None)) \<and> store w' = store w)"
proof (induction "maxGenerationRetries - i" arbitrary: i w)
  case 0
  then show ?case by (auto simp: sqlite_loop_unfold [of U i w])
next
  case (Suc k)
  then have lt: "i < maxGenerationRetries" by simp
  have k: "k = maxGenerationRetries - Suc i" using Suc.hyps(2) by simp
  show ?case
  proof (cases "entropy (rand_src w) (length (drawn (rand_src w)))")
    case EntropyFail
    then show ?thesis using Suc.prems lt
      by (auto simp: sqlite_loop_unfold [of U i w] drew_def)
  next
    case (EntropyBytes f)
    show ?thesis
    proof (cases "code_of f \<in> set (map short_code (urls (store w)))")
      case True
      then have "CreateShortURL_loop SQLiteShortenerRepo U (Suc i) (probed (code_of f) w) = (res, w')"
        using Suc.prems lt EntropyBytes by (simp add: sqlite_loop_unfold [of U i w] del: set_map)
      from Suc.hyps(1) [OF k this] show ?thesis by simp
    next
      case False
      then show ?thesis using Suc.prems lt EntropyBytes
        by (auto simp: sqlite_loop_unfold [of U i w] sqlite_call_SaveMapping length_code_of
            split: if_splits)
    qed
  qed
qed

lemma store_looked_up [simp]: "store (looked_up u w) = store w"
  by (simp add: looked_up_def)

lemma sqlite_CreateShortURL:
  "CreateShortURL SQLiteShortenerRepo U w =
     (if \<not> ValidateURL U then (Return ([], Some ErrInvalidURL), w)
      else case find (\<lambda>r. long_url r = U) (urls (store w)) of
        None \<Rightarrow> CreateShortURL_loop SQLiteShortenerRepo U 0 (looked_up U w)
      | Some r \<Rightarrow>
          if short_code r \<noteq> [] then (Return (short_code r, None), looked_up U w)
          else CreateShortURL_loop SQLiteShortenerRepo U 0 (looked_up U w))"
  by (simp add: CreateShortURL_def sqlite_call_FindByLongURL looked_up_def split: option.split)

lemma distinct_code_unique:
  assumes "distinct (map short_code rs)" "r \<in> set rs" "r' \<in> set rs"
    "short_code r = short_code r'"
  shows "r = r'"
  using assms by (auto simp: distinct_map dest: inj_onD)

lemma find_unique_code:
  assumes "distinct (map short_code rs)" "r \<in> set rs"
  shows "find (\<lambda>x. short_code x = short_code r) rs = Some r"
proof (cases "find (\<lambda>x. short_code x = short_code r) rs")
  case None
  then show ?thesis using assms(2) by (auto simp: find_None_set)
next
  case (Some r')
  then have "r' \<in> set rs" "short_code r' = short_code r" by (auto dest: find_in_set)
  then have "r' = r" using assms by (auto intro: distinct_code_unique)
  then show ?thesis using Some by simp
qed

lemma find_fresh_code:
  assumes "c \<notin> set (map short_code rs)" "short_code x = c"
  shows "find (\<lambda>r. short_code r = c) (rs @ [x]) = Some x"
proof -
  have "find (\<lambda>r. short_code r = c) rs = None" using assms(1) by (simp add: find_code_None)
  then show ?thesis using assms(2) by (simp add: find_append)
qed

text \<open>
  Claim C1: round trip of creation and lookup on the SQLite repository. From any state
  of the table in which the short codes are unique (what the schema enforces), if
  \<open>CreateShortURL U\<close> returns the code \<open>C\<close>, by the reverse lookup or by a fresh
  insert, then \<open>FindByShortCode C\<close> on the resulting table returns \<open>U\<close>.
\<close>

theorem CreateShortURL_roundtrip:
  assumes "unique_codes (store w)"
    and "CreateShortURL SQLiteShortenerRepo U w = (Return (C, None), w')"
  shows "SQLite_FindByShortCode C (store w') = ((U, None), store w')"
proof -
  have valid: "ValidateURL U" using assms(2) by (auto simp: sqlite_CreateShortURL split: if_splits)
  let ?rs = "urls (store w)"
  have fresh: ?thesis
    if "CreateShortURL_loop SQLiteShortenerRepo U 0 (looked_up U w) = (Return (C, None), w')"
  proof -
    from sqlite_loop [OF that]
    have c: "C \<notin> set (map short_code ?rs)" and u: "urls (store w') = ?rs @ [new_row (store w) C U]"
      by auto
    have "find (\<lambda>r. short_code r = C) (urls (store w')) = Some (new_row (store w) C U)"
      unfolding u using c by (intro find_fresh_code) (simp_all add: new_row_def)
    then show ?thesis by (simp add: SQLite_FindByShortCode_def new_row_def)
  qed
  show ?thesis
  proof (cases "find (\<lambda>r. long_url r = U) ?rs")
    case None
    then show ?thesis using assms(2) valid fresh by (simp add: sqlite_CreateShortURL)
  next
    case (Some r)
    show ?thesis
    proof (cases "short_code r = []")
      case True
      then show ?thesis using assms(2) valid fresh Some by (simp add: sqlite_CreateShortURL)
    next
      case False
      then have eq: "C = short_code r" "w' = looked_up U w"
        using assms(2) valid Some by (simp_all add: sqlite_CreateShortURL)
      have r: "r \<in> set ?rs" "long_url r = U" using Some by (auto dest: find_in_set)
      have "find (\<lambda>x. short_code x = short_code r) ?rs = Some r"
        using assms(1) r(1) unfolding unique_codes_def by (intro find_unique_code)
      then show ?thesis using eq r(2) by (simp add: SQLite_FindByShortCode_def)
    qed
  qed
qed

lemma valid_http_a: "ValidateURL ''http://a''"
  by code_simp


lemma create_a: "fst (CreateShortURL SQLiteShortenerRepo ''http://a'' fresh_world) = Return (''AAAAAAA'', None)"
  by code_simp

lemma uniq_fresh: "unique_codes (store fresh_world)"
  by (simp add: unique_codes_def fresh_world_def empty_db_def)

theorem CreateShortURL_roundtrip_witness:
  "unique_codes (store fresh_world)
   \<and> fst (CreateShortURL SQLiteShortenerRepo ''http://a'' fresh_world) = Return (''AAAAAAA'', None)
   \<and> fst (SQLite_FindByShortCode ''AAAAAAA''
        (store (snd (CreateShortURL SQLiteShortenerRepo ''http://a'' fresh_world))))
      = (''http://a'', None)"
proof -
  have "CreateShortURL SQLiteShortenerRepo ''http://a'' fresh_world
      = (Return (''AAAAAAA'', None), snd (CreateShortURL SQLiteShortenerRepo ''http://a'' fresh_world))"
    using create_a by (simp add: prod_eq_iff)
  from CreateShortURL_roundtrip [OF uniq_fresh this] show ?thesis
    using uniq_fresh create_a by simp
qed



lemma alphabet_all:
  "list_all (\<lambda>c. is_letter c \<or> is_digit c \<or> c = CHR ''-'' \<or> c = CHR ''_'') encodeURL"
  by code_simp

lemma alphabet_chars:
  "c \<in> set encodeURL \<Longrightarrow> is_letter c \<or> is_digit c \<or> c = CHR ''-'' \<or> c = CHR ''_''"
  using alphabet_all by (simp only: list_all_iff)

lemma alphabet_excludes:
  "CHR ''+'' \<notin> set encodeURL \<and> CHR ''/'' \<notin> set encodeURL \<and> CHR ''='' \<notin> set encodeURL"
  by code_simp

lemma no_mapping_find:
  "mappings_for U d = 0 \<longleftrightarrow> find (\<lambda>r. long_url r = U) (urls d) = None"
  by (auto simp: mappings_for_def find_None_set filter_empty_conv)

text \<open>
  Claim C3: for a valid URL with no prior mapping, the code a successful
  \<open>CreateShortURL\<close> returns has exactly 7 characters, each of the URL-safe base64
  alphabet (letters, digits, \<open>-\<close> and \<open>_\<close>; never \<open>+\<close>, \<open>/\<close> or \<open>=\<close>).
\<close>

theorem CreateShortURL_code_shape:
  assumes "ValidateURL U" and "mappings_for U (store w) = 0"
    and "CreateShortURL SQLiteShortenerRepo U w = (Return (code, None), w')"
  shows "length code = 7 \<and> set code \<subseteq> set encodeURL
    \<and> list_all (\<lambda>c. is_letter c \<or> is_digit c \<or> c = CHR ''-'' \<or> c = CHR ''_'') code
    \<and> CHR ''+'' \<notin> set code \<and> CHR ''/'' \<notin> set code \<and> CHR ''='' \<notin> set code"
proof -
  have "find (\<lambda>r. long_url r = U) (urls (store w)) = None"
    using assms(2) by (simp only: no_mapping_find)
  then have "CreateShortURL_loop SQLiteShortenerRepo U 0 (looked_up U w) = (Return (code, None), w')"
    using assms(1,3) by (simp add: sqlite_CreateShortURL)
  then have c: "length code = 7" "set code \<subseteq> set encodeURL" by (auto dest: loop_code)
  have "list_all (\<lambda>c. is_letter c \<or> is_digit c \<or> c = CHR ''-'' \<or> c = CHR ''_'') code"
    unfolding list_all_iff using c(2) alphabet_chars by blast
  moreover have "CHR ''+'' \<notin> set code \<and> CHR ''/'' \<notin> set code \<and> CHR ''='' \<notin> set code"
    using c(2) alphabet_excludes by blast
  ultimately show ?thesis using c by blast
qed

theorem CreateShortURL_code_shape_witness:
  "ValidateURL ''http://a'' \<and> mappings_for ''http://a'' (store fresh_world) = 0
   \<and> fst (CreateShortURL SQLiteShortenerRepo ''http://a'' fresh_world) = Return (''AAAAAAA'', None)
   \<and> length ''AAAAAAA'' = 7 \<and> set ''AAAAAAA'' \<subseteq> set encodeURL"
proof -
  have m: "mappings_for ''http://a'' (store fresh_world) = 0"
    by (simp add: mappings_for_def fresh_world_def empty_db_def)
  have "CreateShortURL SQLiteShortenerRepo ''http://a'' fresh_world
      = (Return (''AAAAAAA'', None), snd (CreateShortURL SQLiteShortenerRepo ''http://a'' fresh_world))"
    using create_a by (simp add: prod_eq_iff)
  from CreateShortURL_code_shape [OF valid_http_a m this] show ?thesis
    using valid_http_a m create_a by simp
qed

lemma sqlite_svc_UpdateLongURL:
  "store (snd (svc_UpdateLongURL SQLiteShortenerRepo c U w)) =
     (if ValidateURL U \<and> c \<in> set (map short_code (urls (store w)))
      then (store w)\<lparr>urls := map (\<lambda>r. if short_code r = c then r\<lparr>long_url := U\<rparr> else r)
                                (urls (store w))\<rparr>
      else store w)"
  by (auto simp: svc_UpdateLongURL_def call_UpdateLongURL_def SQLiteShortenerRepo_def
      SQLite_UpdateLongURL_def Let_def filter_empty_conv split: prod.splits option.splits)

lemma sqlite_svc_DeleteMapping:
  "store (snd (svc_DeleteMapping SQLiteShortenerRepo c w)) =
     (if c \<in> set (map short_code (urls (store w)))
      then (store w)\<lparr>urls := filter (\<lambda>r. short_code r \<noteq> c) (urls (store w))\<rparr>
      else store w)"
  by (auto simp: svc_DeleteMapping_def call_DeleteMapping_def SQLiteShortenerRepo_def
      SQLite_DeleteMapping_def Let_def filter_empty_conv split: prod.splits option.splits)

lemma codes_after_update:
  "map short_code (map (\<lambda>r. if short_code r = c then r\<lparr>long_url := U\<rparr> else r) rs)
   = map short_code rs"
  by (induction rs) simp_all

lemma sqlite_create_store:
  "store (snd (CreateShortURL SQLiteShortenerRepo U w)) = store w
   \<or> (\<exists>code. fst (CreateShortURL SQLiteShortenerRepo U w) = Return (code, None)
        \<and> code \<notin> set (map short_code (urls (store w)))
        \<and> urls (store (snd (CreateShortURL SQLiteShortenerRepo U w)))
            = urls (store w) @ [new_row (store w) code U])"
proof -
  obtain res w' where l: "CreateShortURL_loop SQLiteShortenerRepo U 0 (looked_up U w) = (res, w')"
    by (cases "CreateShortURL_loop SQLiteShortenerRepo U 0 (looked_up U w)")
  from sqlite_loop [OF l] have
    "store w' = store w
     \<or> (\<exists>code. res = Return (code, None) \<and> code \<notin> set (map short_code (urls (store w)))
          \<and> urls (store w') = urls (store w) @ [new_row (store w) code U])"
    by auto
  then show ?thesis using l
    by (auto simp: sqlite_CreateShortURL split: option.split)
qed

text \<open>
  Claim C9: at most one row per short code. From a table with unique short codes,
  \<open>CreateShortURL\<close>, \<open>UpdateLongURL\<close> and \<open>DeleteMapping\<close> each leave a table with unique
  short codes. Creation leaves the table as it was or appends one row whose code the table
  did not hold; update keeps the set of codes; delete introduces none.
\<close>

theorem unique_codes_preserved:
  assumes "unique_codes (store w)"
  shows "unique_codes (store (snd (CreateShortURL SQLiteShortenerRepo U w)))
    \<and> unique_codes (store (snd (svc_UpdateLongURL SQLiteShortenerRepo c U w)))
    \<and> unique_codes (store (snd (svc_DeleteMapping SQLiteShortenerRepo c w)))
    \<and> set (map short_code (urls (store (snd (svc_UpdateLongURL SQLiteShortenerRepo c U w)))))
        = set (map short_code (urls (store w)))
    \<and> set (map short_code (urls (store (snd (svc_DeleteMapping SQLiteShortenerRepo c w)))))
        \<subseteq> set (map short_code (urls (store w)))
    \<and> (store (snd (CreateShortURL SQLiteShortenerRepo U w)) = store w
        \<or> (\<exists>code. code \<notin> set (map short_code (urls (store w)))
              \<and> urls (store (snd (CreateShortURL SQLiteShortenerRepo U w)))
                  = urls (store w) @ [new_row (store w) code U]))"
proof (intro conjI)
  show "store (snd (CreateShortURL SQLiteShortenerRepo U w)) = store w
        \<or> (\<exists>code. code \<notin> set (map short_code (urls (store w)))
              \<and> urls (store (snd (CreateShortURL SQLiteShortenerRepo U w)))
                  = urls (store w) @ [new_row (store w) code U])"
    using sqlite_create_store [of U w] by blast
  show "unique_codes (store (snd (CreateShortURL SQLiteShortenerRepo U w)))"
    using sqlite_create_store [of U w] assms by (auto simp: unique_codes_def new_row_def)
  show "unique_codes (store (snd (svc_UpdateLongURL SQLiteShortenerRepo c U w)))"
    using assms by (simp add: sqlite_svc_UpdateLongURL unique_codes_def codes_after_update del: set_map map_map)
  show "unique_codes (store (snd (svc_DeleteMapping SQLiteShortenerRepo c w)))"
    using assms by (simp add: sqlite_svc_DeleteMapping unique_codes_def distinct_map_filter del: set_map)
  show "set (map short_code (urls (store (snd (svc_UpdateLongURL SQLiteShortenerRepo c U w)))))
        = set (map short_code (urls (store w)))"
    by (simp add: sqlite_svc_UpdateLongURL codes_after_update del: set_map map_map)
  show "set (map short_code (urls (store (snd (svc_DeleteMapping SQLiteShortenerRepo c w)))))
        \<subseteq> set (map short_code (urls (store w)))"
    by (auto simp: sqlite_svc_DeleteMapping)
qed

text \<open>
  Claim C2, as the code has it. On a table without an empty short code (every code the
  service writes has 7 characters), if \<open>CreateShortURL U\<close> returns the code \<open>C\<close>, a
  second \<open>CreateShortURL U\<close> returns \<open>C\<close> again and does nothing but the reverse lookup:
  no read of random bytes, no insert, the table unchanged. The two calls insert one row when
  \<open>U\<close> had no mapping, and then \<open>U\<close> has exactly one; they insert none when \<open>U\<close> had
  mappings already, whose number (which an update can have made larger than one) stays.
\<close>

theorem CreateShortURL_idempotent:
  assumes "[] \<notin> set (map short_code (urls (store w)))"
    and "CreateShortURL SQLiteShortenerRepo U w = (Return (C, None), w1)"
  shows "CreateShortURL SQLiteShortenerRepo U w1 = (Return (C, None), looked_up U w1)
    \<and> mappings_for U (store w1) = max 1 (mappings_for U (store w))
    \<and> (if mappings_for U (store w) = 0
        then urls (store w1) = urls (store w) @ [new_row (store w) C U]
        else store w1 = store w)"
proof -
  have valid: "ValidateURL U" using assms(2) by (auto simp: sqlite_CreateShortURL split: if_splits)
  let ?rs = "urls (store w)"
  show ?thesis
  proof (cases "find (\<lambda>r. long_url r = U) ?rs")
    case None
    then have m0: "mappings_for U (store w) = 0" by (simp only: no_mapping_find)
    have "CreateShortURL_loop SQLiteShortenerRepo U 0 (looked_up U w) = (Return (C, None), w1)"
      using assms(2) valid None by (simp add: sqlite_CreateShortURL)
    from sqlite_loop [OF this]
    have len: "length C = 7" and u: "urls (store w1) = ?rs @ [new_row (store w) C U]"
      by auto
    have "find (\<lambda>r. long_url r = U) (urls (store w1)) = Some (new_row (store w) C U)"
      unfolding u using None by (simp add: find_append new_row_def)
    moreover have "C \<noteq> []" using len by auto
    ultimately have second: "CreateShortURL SQLiteShortenerRepo U w1 = (Return (C, None), looked_up U w1)"
      using valid by (simp add: sqlite_CreateShortURL new_row_def)
    have "filter (\<lambda>r. long_url r = U) ?rs = []"
      using None by (auto simp: find_None_set filter_empty_conv)
    then have "mappings_for U (store w1) = 1"
      unfolding mappings_for_def u by (simp add: new_row_def)
    then show ?thesis using second m0 u by simp
  next
    case (Some r)
    then have r: "r \<in> set ?rs" "long_url r = U" by (auto dest: find_in_set)
    then have ne: "short_code r \<noteq> []" using assms(1) by (metis image_eqI set_map)
    then have eq: "C = short_code r" "w1 = looked_up U w"
      using assms(2) valid Some by (simp_all add: sqlite_CreateShortURL)
    have second: "CreateShortURL SQLiteShortenerRepo U w1 = (Return (C, None), looked_up U w1)"
      using valid Some ne eq by (simp add: sqlite_CreateShortURL)
    have "r \<in> set (filter (\<lambda>r. long_url r = U) ?rs)" using r by simp
    then have "mappings_for U (store w) \<noteq> 0"
      unfolding mappings_for_def by (metis length_0_conv empty_iff list.set(1))
    then show ?thesis using second eq by simp
  qed
qed

theorem CreateShortURL_idempotent_witness:
  "[] \<notin> set (map short_code (urls (store fresh_world)))
   \<and> fst (CreateShortURL SQLiteShortenerRepo ''http://a'' fresh_world) = Return (''AAAAAAA'', None)
   \<and> fst (CreateShortURL SQLiteShortenerRepo ''http://a''
            (snd (CreateShortURL SQLiteShortenerRepo ''http://a'' fresh_world)))
      = Return (''AAAAAAA'', None)
   \<and> mappings_for ''http://a''
        (store (snd (CreateShortURL SQLiteShortenerRepo ''http://a'' fresh_world))) = 1"
proof -
  have e: "[] \<notin> set (map short_code (urls (store fresh_world)))"
    by (simp add: fresh_world_def empty_db_def)
  have m: "mappings_for ''http://a'' (store fresh_world) = 0"
    by (simp add: mappings_for_def fresh_world_def empty_db_def)
  have "CreateShortURL SQLiteShortenerRepo ''http://a'' fresh_world
      = (Return (''AAAAAAA'', None), snd (CreateShortURL SQLiteShortenerRepo ''http://a'' fresh_world))"
    using create_a by (simp add: prod_eq_iff)
  from CreateShortURL_idempotent [OF e this] show ?thesis
    using e m create_a by simp
qed

text \<open>
  Claim C2 as stated fails in a state the service itself reaches: after two creations and
  an update, two codes map to the same URL; both creations of that URL return the same code
  and the table holds two mappings for it, not exactly one.
\<close>

theorem CreateShortURL_twice_counterexample:
  "fst (CreateShortURL SQLiteShortenerRepo ''http://a'' two_codes_world) = Return (''AAAAAAA'', None)
   \<and> fst (CreateShortURL SQLiteShortenerRepo ''http://a''
            (snd (CreateShortURL SQLiteShortenerRepo ''http://a'' two_codes_world)))
      = Return (''AAAAAAA'', None)
   \<and> mappings_for ''http://a''
        (store (snd (CreateShortURL SQLiteShortenerRepo ''http://a''
            (snd (CreateShortURL SQLiteShortenerRepo ''http://a'' two_codes_world))))) = 2"
  by code_simp

lemma unique_one_row: "unique_codes (store one_row_world)"
  by code_simp

theorem unique_codes_preserved_witness:
  "unique_codes (store one_row_world)
   \<and> unique_codes (store (snd (CreateShortURL SQLiteShortenerRepo ''http://b'' one_row_world)))
   \<and> unique_codes (store (snd (svc_UpdateLongURL SQLiteShortenerRepo ''AAAAAAA'' ''http://b'' one_row_world)))
   \<and> unique_codes (store (snd (svc_DeleteMapping SQLiteShortenerRepo ''AAAAAAA'' one_row_world)))
   \<and> map short_code (urls (store one_row_world)) = [''AAAAAAA'']"
proof -
  have "map short_code (urls (store one_row_world)) = [''AAAAAAA'']" by code_simp
  with unique_codes_preserved [OF unique_one_row, of "''http://b''" "''AAAAAAA''"] unique_one_row
  show ?thesis by simp
qed

subsection \<open>The calls made to the repository\<close>

lemma calls_call_FindByShortCode:
  "calls (snd (call_FindByShortCode repo c w)) = calls w @ [CallFindByShortCode c]"
  by (simp add: call_FindByShortCode_def split: prod.split)

lemma calls_call_SaveMapping:
  "calls (snd (call_SaveMapping repo c u w)) = calls w @ [CallSaveMapping c u]"
  by (simp add: call_SaveMapping_def split: prod.split)

lemma calls_call_FindByLongURL:
  "calls (snd (call_FindByLongURL repo u w)) = calls w @ [CallFindByLongURL u]"
  by (simp add: call_FindByLongURL_def split: prod.split)

lemma rand_src_call_FindByShortCode:
  "rand_src (snd (call_FindByShortCode repo c w)) = rand_src w"
  by (simp add: call_FindByShortCode_def split: prod.split)

lemma rand_src_call_FindByLongURL:
  "rand_src (snd (call_FindByLongURL repo u w)) = rand_src w"
  by (simp add: call_FindByLongURL_def split: prod.split)

lemma loop_save_failure:
  assumes "i < maxGenerationRetries"
    and "entropy (rand_src w) (length (drawn (rand_src w))) = EntropyBytes f"
    and "call_FindByShortCode repo (code_of f) (drew w) = ((found, Some ErrNotFound), w1)"
    and "call_SaveMapping repo (code_of f) longURL w1 = ((n, Some saveErr), w2)"
  shows "CreateShortURL_loop repo longURL i w = (Return ([], Some (ErrSaveMapping saveErr)), w2)"
  using assms by (subst loop_unfold) (simp add: drew_def)

lemma loop_calls:
  "\<exists>new. calls (snd (CreateShortURL_loop repo longURL i w)) = calls w @ new
         \<and> list_all (\<lambda>c. \<not> is_save c) (butlast new)"
proof (induction "maxGenerationRetries - i" arbitrary: i w)
  case 0
  then show ?case by (simp add: loop_unfold [of repo longURL i w])
next
  case (Suc k)
  then have lt: "i < maxGenerationRetries" by simp
  have k: "k = maxGenerationRetries - Suc i" using Suc.hyps(2) by simp
  show ?case
  proof (cases "entropy (rand_src w) (length (drawn (rand_src w)))")
    case EntropyFail
    then show ?thesis using lt by (simp add: loop_unfold [of repo longURL i w])
  next
    case (EntropyBytes f)
    obtain found e w1 where p: "call_FindByShortCode repo (code_of f) (drew w) = ((found, e), w1)"
      by (metis surj_pair)
    have c1: "calls w1 = calls w @ [CallFindByShortCode (code_of f)]"
      using calls_call_FindByShortCode [of repo "code_of f" "drew w"] p by (simp add: drew_def)
    show ?thesis
    proof (cases e)
      case None
      then have "CreateShortURL_loop repo longURL i w = CreateShortURL_loop repo longURL (Suc i) w1"
        using lt EntropyBytes p by (simp add: loop_unfold [of repo longURL i w] drew_def)
      moreover obtain new where
        "calls (snd (CreateShortURL_loop repo longURL (Suc i) w1)) = calls w1 @ new"
        "list_all (\<lambda>c. \<not> is_save c) (butlast new)"
        using Suc.hyps(1) [OF k, of w1] by blast
      ultimately have
        "calls (snd (CreateShortURL_loop repo longURL i w)) = calls w @ (CallFindByShortCode (code_of f) # new)"
        "list_all (\<lambda>c. \<not> is_save c) (butlast (CallFindByShortCode (code_of f) # new))"
        using c1 by (simp_all add: is_save_def)
      then show ?thesis by blast
    next
      case (Some repoErr)
      show ?thesis
      proof (cases "repoErr = ErrNotFound")
        case False
        then have "calls (snd (CreateShortURL_loop repo longURL i w)) = calls w @ [CallFindByShortCode (code_of f)]"
          using lt EntropyBytes p Some c1 by (simp add: loop_unfold [of repo longURL i w] drew_def)
        then show ?thesis by simp
      next
        case True
        obtain n se w2 where s: "call_SaveMapping repo (code_of f) longURL w1 = ((n, se), w2)"
          by (metis surj_pair)
        have c2: "calls w2 = calls w1 @ [CallSaveMapping (code_of f) longURL]"
          using calls_call_SaveMapping [of repo "code_of f" longURL w1] s by simp
        have "snd (CreateShortURL_loop repo longURL i w) = w2"
          using lt EntropyBytes p Some True s
          by (simp add: loop_unfold [of repo longURL i w] drew_def split: option.split)
        then have "calls (snd (CreateShortURL_loop repo longURL i w))
            = calls w @ [CallFindByShortCode (code_of f), CallSaveMapping (code_of f) longURL]"
          using c1 c2 by simp
        moreover have "list_all (\<lambda>c. \<not> is_save c)
            (butlast [CallFindByShortCode (code_of f), CallSaveMapping (code_of f) longURL])"
          by (simp add: is_save_def)
        ultimately show ?thesis by blast
      qed
    qed
  qed
qed

text \<open>
  Claim C4, as the code has it. For every repository: when, in any attempt of the retry
  loop, the probe reports not-found and \<open>SaveMapping\<close> then returns an error (a violation
  of the uniqueness constraint as any other), \<open>CreateShortURL\<close> fails at once with the
  error that wraps it; the failure is not treated as a collision and no further attempt is
  made. In every run, a call to \<open>SaveMapping\<close> is the last call made to the repository.
\<close>

theorem CreateShortURL_save_error_fatal:
  "(i < maxGenerationRetries
      \<and> entropy (rand_src w) (length (drawn (rand_src w))) = EntropyBytes f
      \<and> call_FindByShortCode repo (code_of f) (drew w) = ((found, Some ErrNotFound), w1)
      \<and> call_SaveMapping repo (code_of f) longURL w1 = ((n, Some saveErr), w2)
    \<longrightarrow> CreateShortURL_loop repo longURL i w = (Return ([], Some (ErrSaveMapping saveErr)), w2))
   \<and> (\<exists>new. calls (snd (CreateShortURL repo longURL w')) = calls w' @ new
          \<and> list_all (\<lambda>c. \<not> is_save c) (butlast new))"
proof (intro conjI impI)
  assume "i < maxGenerationRetries
      \<and> entropy (rand_src w) (length (drawn (rand_src w))) = EntropyBytes f
      \<and> call_FindByShortCode repo (code_of f) (drew w) = ((found, Some ErrNotFound), w1)
      \<and> call_SaveMapping repo (code_of f) longURL w1 = ((n, Some saveErr), w2)"
  then show "CreateShortURL_loop repo longURL i w = (Return ([], Some (ErrSaveMapping saveErr)), w2)"
    using loop_save_failure by blast
next
  obtain code e w0 where l: "call_FindByLongURL repo longURL w' = ((code, e), w0)"
    by (metis surj_pair)
  have c0: "calls w0 = calls w' @ [CallFindByLongURL longURL]"
    using calls_call_FindByLongURL [of repo longURL w'] l by simp
  obtain new where n: "calls (snd (CreateShortURL_loop repo longURL 0 w0)) = calls w0 @ new"
    "list_all (\<lambda>c. \<not> is_save c) (butlast new)"
    using loop_calls [of repo longURL 0 w0] by blast
  have n': "list_all (\<lambda>c. \<not> is_save c) (butlast (CallFindByLongURL longURL # new))"
    using n(2) by (simp add: is_save_def)
  have "calls (snd (CreateShortURL repo longURL w')) = calls w' @ []
      \<or> calls (snd (CreateShortURL repo longURL w')) = calls w' @ [CallFindByLongURL longURL]
      \<or> calls (snd (CreateShortURL repo longURL w')) = calls w' @ (CallFindByLongURL longURL # new)"
    using l c0 n(1) by (simp add: CreateShortURL_def split: option.split)
  then show "\<exists>new. calls (snd (CreateShortURL repo longURL w')) = calls w' @ new
          \<and> list_all (\<lambda>c. \<not> is_save c) (butlast new)"
    using n' by (elim disjE) (rule exI, erule conjI, simp add: is_save_def)+
qed

lemma raced_probe:
  "fst (call_FindByShortCode raced_repo ''AAAAAAA'' (drew (looked_up ''http://a'' fresh_world)))
      = ([], Some ErrNotFound)"
  by code_simp

lemma raced_save:
  "fst (call_SaveMapping raced_repo ''AAAAAAA'' ''http://a''
     (snd (call_FindByShortCode raced_repo ''AAAAAAA'' (drew (looked_up ''http://a'' fresh_world)))))
      = (0, Some ErrUniqueConstraint)"
  by code_simp

lemma code_of_zero: "code_of (\<lambda>i. 0) = ''AAAAAAA''"
  by code_simp

theorem CreateShortURL_save_error_fatal_witness:
  "0 < maxGenerationRetries
   \<and> entropy (rand_src (looked_up ''http://a'' fresh_world))
        (length (drawn (rand_src (looked_up ''http://a'' fresh_world)))) = EntropyBytes (\<lambda>i. 0)
   \<and> fst (call_FindByShortCode raced_repo ''AAAAAAA'' (drew (looked_up ''http://a'' fresh_world)))
        = ([], Some ErrNotFound)
   \<and> fst (call_SaveMapping raced_repo ''AAAAAAA'' ''http://a''
        (snd (call_FindByShortCode raced_repo ''AAAAAAA'' (drew (looked_up ''http://a'' fresh_world)))))
        = (0, Some ErrUniqueConstraint)
   \<and> fst (CreateShortURL_loop raced_repo ''http://a'' 0 (looked_up ''http://a'' fresh_world))
        = Return ([], Some (ErrSaveMapping ErrUniqueConstraint))"
proof -
  let ?w = "looked_up ''http://a'' fresh_world"
  let ?w1 = "snd (call_FindByShortCode raced_repo ''AAAAAAA'' (drew ?w))"
  let ?w2 = "snd (call_SaveMapping raced_repo ''AAAAAAA'' ''http://a'' ?w1)"
  have e: "entropy (rand_src ?w) (length (drawn (rand_src ?w))) = EntropyBytes (\<lambda>i. 0)"
    by (simp add: looked_up_def fresh_world_def counting_rng_def)
  have m: "0 < maxGenerationRetries" by (simp add: maxGenerationRetries_def)
  have p: "call_FindByShortCode raced_repo (code_of (\<lambda>i. 0)) (drew ?w) = (([], Some ErrNotFound), ?w1)"
    unfolding code_of_zero using raced_probe by (simp only: prod_eq_iff fst_conv snd_conv simp_thms)
  have s: "call_SaveMapping raced_repo (code_of (\<lambda>i. 0)) ''http://a'' ?w1
      = ((0, Some ErrUniqueConstraint), ?w2)"
    unfolding code_of_zero using raced_save by (simp only: prod_eq_iff fst_conv snd_conv simp_thms)
  have "CreateShortURL_loop raced_repo ''http://a'' 0 ?w
      = (Return ([], Some (ErrSaveMapping ErrUniqueConstraint)), ?w2)"
    using CreateShortURL_save_error_fatal [of 0 ?w "\<lambda>i. 0" raced_repo "[]" ?w1 "''http://a''" 0
        ErrUniqueConstraint ?w2 fresh_world] m e p s
    by blast
  then have "fst (CreateShortURL_loop raced_repo ''http://a'' 0 ?w)
      = Return ([], Some (ErrSaveMapping ErrUniqueConstraint))"
    by (simp only: fst_conv)
  then show ?thesis using m e raced_probe raced_save by blast
qed

text \<open>
  Claim C4 as stated fails when the insert is rejected for a duplicate code: the request
  fails with the save error after one read of random bytes, one probe and one insert, with
  four attempts of the budget unused.
\<close>

theorem CreateShortURL_save_retry_counterexample:
  "fst (CreateShortURL raced_repo ''http://a'' fresh_world)
     = Return ([], Some (ErrSaveMapping ErrUniqueConstraint))
   \<and> calls (snd (CreateShortURL raced_repo ''http://a'' fresh_world))
     = [CallFindByLongURL ''http://a'', CallFindByShortCode ''AAAAAAA'',
        CallSaveMapping ''AAAAAAA'' ''http://a'']
   \<and> drawn (rand_src (snd (CreateShortURL raced_repo ''http://a'' fresh_world))) = [6]"
  by code_simp

subsection \<open>Exhausting the retries\<close>

lemma loop_exhausted:
  assumes "i \<le> maxGenerationRetries"
    and "entropy (rand_src w) = e"
    and "length (drawn (rand_src w)) = base + i"
    and "store w \<in> S"
    and "\<And>k. k < maxGenerationRetries \<Longrightarrow> \<exists>f. e (base + k) = EntropyBytes f"
    and "\<And>k f s. k < maxGenerationRetries \<Longrightarrow> e (base + k) = EntropyBytes f \<Longrightarrow> s \<in> S
          \<Longrightarrow> snd (fst (repo_FindByShortCode repo (code_of f) s)) = None
              \<and> snd (repo_FindByShortCode repo (code_of f) s) \<in> S"
  shows "fst (CreateShortURL_loop repo U i w) = Return ([], Some ErrRetriesExhausted)
    \<and> calls (snd (CreateShortURL_loop repo U i w))
        = calls w @ map (\<lambda>k. CallFindByShortCode (case e (base + k) of EntropyBytes f \<Rightarrow> code_of f | EntropyFail \<Rightarrow> []))
                      [i..<maxGenerationRetries]
    \<and> drawn (rand_src (snd (CreateShortURL_loop repo U i w)))
        = drawn (rand_src w) @ replicate (maxGenerationRetries - i) 6"
  using assms(1-4)
proof (induction "maxGenerationRetries - i" arbitrary: i w)
  case 0
  then have i: "i = maxGenerationRetries" by simp
  have "CreateShortURL_loop repo U maxGenerationRetries w = (Return ([], Some ErrRetriesExhausted), w)"
    by (subst loop_unfold) simp
  then show ?case unfolding i by simp
next
  case (Suc j)
  then have lt: "i < maxGenerationRetries" by simp
  have j: "j = maxGenerationRetries - Suc i" using Suc.hyps(2) by simp
  obtain f where f: "e (base + i) = EntropyBytes f" using assms(5) [OF lt] by blast
  then have ent: "entropy (rand_src w) (length (drawn (rand_src w))) = EntropyBytes f"
    using Suc.prems by simp
  obtain found err s' where r: "repo_FindByShortCode repo (code_of f) (store w) = ((found, err), s')"
    by (metis surj_pair)
  have "err = None" "s' \<in> S"
    using assms(6) [OF lt f Suc.prems(4)] r by simp_all
  define w1 where "w1 = (drew w)\<lparr>store := s', calls := calls w @ [CallFindByShortCode (code_of f)]\<rparr>"
  have p: "call_FindByShortCode repo (code_of f) (drew w) = ((found, None), w1)"
    using r \<open>err = None\<close> by (simp add: call_FindByShortCode_def w1_def drew_def)
  have step: "CreateShortURL_loop repo U i w = CreateShortURL_loop repo U (Suc i) w1"
    using lt ent p by (simp add: loop_unfold [of repo U i w] drew_def)
  have w1: "entropy (rand_src w1) = e" "length (drawn (rand_src w1)) = base + Suc i" "store w1 \<in> S"
    "calls w1 = calls w @ [CallFindByShortCode (code_of f)]"
    "drawn (rand_src w1) = drawn (rand_src w) @ [6]"
    using Suc.prems \<open>s' \<in> S\<close> by (simp_all add: w1_def drew_def)
  have le: "Suc i \<le> maxGenerationRetries" using lt by simp
  note IH = Suc.hyps(1) [OF j le w1(1,2,3)]
  have upt: "[i..<maxGenerationRetries] = i # [Suc i..<maxGenerationRetries]"
    using lt by (simp add: upt_conv_Cons)
  have rep: "replicate (maxGenerationRetries - i) (6::nat) = 6 # replicate (maxGenerationRetries - Suc i) 6"
    using lt by (metis Suc_diff_Suc replicate_Suc)
  show ?case
    unfolding step upt rep using IH w1(4,5) f by simp
qed

text \<open>
  Claim C6: for a valid URL for which the reverse lookup finds no code, if the entropy
  source does not fail and the probe reports each of the five candidate codes as present
  (in every store of a set \<open>S\<close> that holds the store after the reverse lookup and that
  the probes do not leave), \<open>CreateShortURL\<close> fails with the exhausted-retries error; the
  calls it makes are the reverse lookup and five probes, none to \<open>SaveMapping\<close>; and it
  reads the entropy source exactly five times, six bytes each.
\<close>

theorem CreateShortURL_retries_exhausted:
  assumes "ValidateURL U"
    and "fst (fst (call_FindByLongURL repo U w)) = []"
    and "snd (fst (call_FindByLongURL repo U w)) = None
         \<or> snd (fst (call_FindByLongURL repo U w)) = Some ErrNotFound"
    and "store (snd (call_FindByLongURL repo U w)) \<in> S"
    and "\<And>k. k < maxGenerationRetries
          \<Longrightarrow> entropy (rand_src w) (length (drawn (rand_src w)) + k) \<noteq> EntropyFail"
    and "\<And>k s. k < maxGenerationRetries \<Longrightarrow> s \<in> S
          \<Longrightarrow> snd (fst (repo_FindByShortCode repo (candidate (rand_src w) k) s)) = None
              \<and> snd (repo_FindByShortCode repo (candidate (rand_src w) k) s) \<in> S"
  shows "fst (CreateShortURL repo U w) = Return ([], Some ErrRetriesExhausted)
    \<and> calls (snd (CreateShortURL repo U w))
        = calls w @ CallFindByLongURL U
            # map (\<lambda>k. CallFindByShortCode (candidate (rand_src w) k)) [0..<maxGenerationRetries]
    \<and> \<not> list_ex is_save (drop (length (calls w)) (calls (snd (CreateShortURL repo U w))))
    \<and> drawn (rand_src (snd (CreateShortURL repo U w)))
        = drawn (rand_src w) @ replicate maxGenerationRetries 6"
proof -
  define w0 where "w0 = snd (call_FindByLongURL repo U w)"
  define e where "e = entropy (rand_src w)"
  define base where "base = length (drawn (rand_src w))"
  have l: "call_FindByLongURL repo U w = (([], snd (fst (call_FindByLongURL repo U w))), w0)"
    using assms(2) by (simp add: w0_def prod_eq_iff)
  have c: "CreateShortURL repo U w = CreateShortURL_loop repo U 0 w0"
    using assms(1,3) by (subst CreateShortURL_def, subst l) auto
  have r0: "rand_src w0 = rand_src w" unfolding w0_def by (rule rand_src_call_FindByLongURL)
  have c0: "calls w0 = calls w @ [CallFindByLongURL U]" unfolding w0_def by (rule calls_call_FindByLongURL)
  have cand: "(case e (base + k) of EntropyBytes f \<Rightarrow> code_of f | EntropyFail \<Rightarrow> []) = candidate (rand_src w) k" for k
    by (simp add: candidate_def e_def base_def)
  have ex: "\<exists>f. e (base + k) = EntropyBytes f" if "k < maxGenerationRetries" for k
    using assms(5) [OF that] by (cases "e (base + k)") (simp_all add: e_def base_def)
  have pr: "snd (fst (repo_FindByShortCode repo (code_of f) s)) = None
            \<and> snd (repo_FindByShortCode repo (code_of f) s) \<in> S"
    if "k < maxGenerationRetries" "e (base + k) = EntropyBytes f" "s \<in> S" for k f s
    using assms(6) [OF that(1,3)] that(2) by (simp add: candidate_def e_def base_def)
  have "fst (CreateShortURL_loop repo U 0 w0) = Return ([], Some ErrRetriesExhausted)
    \<and> calls (snd (CreateShortURL_loop repo U 0 w0))
        = calls w0 @ map (\<lambda>k. CallFindByShortCode (case e (base + k) of EntropyBytes f \<Rightarrow> code_of f | EntropyFail \<Rightarrow> []))
                      [0..<maxGenerationRetries]
    \<and> drawn (rand_src (snd (CreateShortURL_loop repo U 0 w0)))
        = drawn (rand_src w0) @ replicate (maxGenerationRetries - 0) 6"
  proof (rule loop_exhausted [where S = S and e = e and base = base])
    show "0 \<le> maxGenerationRetries" by simp
    show "entropy (rand_src w0) = e" by (simp add: r0 e_def)
    show "length (drawn (rand_src w0)) = base + 0" by (simp add: r0 base_def)
    show "store w0 \<in> S" using assms(4) by (simp add: w0_def)
    show "\<exists>f. e (base + k) = EntropyBytes f" if "k < maxGenerationRetries" for k
      using that by (rule ex)
    show "snd (fst (repo_FindByShortCode repo (code_of f) s)) = None
            \<and> snd (repo_FindByShortCode repo (code_of f) s) \<in> S"
      if "k < maxGenerationRetries" "e (base + k) = EntropyBytes f" "s \<in> S" for k f s
      using that by (rule pr)
  qed
  then have main: "fst (CreateShortURL repo U w) = Return ([], Some ErrRetriesExhausted)"
    "calls (snd (CreateShortURL repo U w))
        = calls w @ CallFindByLongURL U
            # map (\<lambda>k. CallFindByShortCode (candidate (rand_src w) k)) [0..<maxGenerationRetries]"
    "drawn (rand_src (snd (CreateShortURL repo U w)))
        = drawn (rand_src w) @ replicate maxGenerationRetries 6"
    unfolding c cand by (simp_all add: c0 r0)
  have "\<not> list_ex is_save (drop (length (calls w)) (calls (snd (CreateShortURL repo U w))))"
    unfolding main(2) by (simp add: list_ex_iff is_save_def)
  then show ?thesis using main by blast
qed

lemma valid_http_b: "ValidateURL ''http://b''"
  by code_simp

lemma snd_SQLite_FindByShortCode: "snd (SQLite_FindByShortCode c d) = d"
  by (simp add: SQLite_FindByShortCode_def split: option.split)

lemma stuck_lookup:
  "fst (call_FindByLongURL SQLiteShortenerRepo ''http://b'' stuck_world) = ([], None)"
  by code_simp

lemma stuck_probe:
  "snd (fst (SQLite_FindByShortCode ''AAAAAAA'' (store stuck_world))) = None"
  by code_simp

lemma candidate_zero: "candidate (rand_src stuck_world) k = ''AAAAAAA''"
  by (simp add: candidate_def stuck_world_def zero_rng_def code_of_zero)

theorem CreateShortURL_retries_exhausted_witness:
  "ValidateURL ''http://b''
   \<and> fst (call_FindByLongURL SQLiteShortenerRepo ''http://b'' stuck_world) = ([], None)
   \<and> snd (fst (SQLite_FindByShortCode ''AAAAAAA'' (store stuck_world))) = None
   \<and> fst (CreateShortURL SQLiteShortenerRepo ''http://b'' stuck_world)
       = Return ([], Some ErrRetriesExhausted)
   \<and> calls (snd (CreateShortURL SQLiteShortenerRepo ''http://b'' stuck_world))
       = [CallFindByLongURL ''http://b'', CallFindByShortCode ''AAAAAAA'',
          CallFindByShortCode ''AAAAAAA'', CallFindByShortCode ''AAAAAAA'',
          CallFindByShortCode ''AAAAAAA'', CallFindByShortCode ''AAAAAAA'']
   \<and> drawn (rand_src (snd (CreateShortURL SQLiteShortenerRepo ''http://b'' stuck_world)))
       = [6, 6, 6, 6, 6]"
proof -
  let ?S = "{store stuck_world}"
  have a2: "fst (fst (call_FindByLongURL SQLiteShortenerRepo ''http://b'' stuck_world)) = []"
    using stuck_lookup by simp
  have a3: "snd (fst (call_FindByLongURL SQLiteShortenerRepo ''http://b'' stuck_world)) = None
         \<or> snd (fst (call_FindByLongURL SQLiteShortenerRepo ''http://b'' stuck_world)) = Some ErrNotFound"
    using stuck_lookup by simp
  have a4: "store (snd (call_FindByLongURL SQLiteShortenerRepo ''http://b'' stuck_world)) \<in> ?S"
    by (simp add: sqlite_call_FindByLongURL)
  have a5: "entropy (rand_src stuck_world) (length (drawn (rand_src stuck_world)) + k) \<noteq> EntropyFail"
    for k by (simp add: stuck_world_def zero_rng_def)
  have a6: "snd (fst (repo_FindByShortCode SQLiteShortenerRepo (candidate (rand_src stuck_world) k) s)) = None
      \<and> snd (repo_FindByShortCode SQLiteShortenerRepo (candidate (rand_src stuck_world) k) s) \<in> ?S"
    if "s \<in> ?S" for k s
    using that stuck_probe
    by (simp add: candidate_zero SQLiteShortenerRepo_def snd_SQLite_FindByShortCode)
  have calls0: "calls stuck_world = []" and drawn0: "drawn (rand_src stuck_world) = []"
    by (simp_all add: stuck_world_def zero_rng_def)
  have five: "[0..<maxGenerationRetries] = [0, 1, 2, 3, 4]"
    "replicate maxGenerationRetries (6::nat) = [6, 6, 6, 6, 6]"
    by (simp_all add: maxGenerationRetries_def upt_rec numeral_eq_Suc)
  from CreateShortURL_retries_exhausted [OF valid_http_b a2 a3 a4 a5 a6]
  show ?thesis
    using valid_http_b stuck_lookup stuck_probe
    by (simp add: candidate_zero calls0 drawn0 five)
qed

section \<open>URL validation\<close>


















end
